theory Spec2Isabelle
  imports Main "HOL-Library.Sublist" "HOL-Library.List_Lexorder"
begin

section \<open>Python values\<close>

text \<open>
  A Python \<open>str\<close> is a sequence of Unicode code points, so a string is a list of
  naturals here: substring tests, whitespace classes and comparisons work on code points,
  and the announcement subjects of the listing are CJK text.
\<close>

type_synonym ustr = "nat list"

text \<open>
  The documents that \<open>json.load\<close> and \<open>r.json()\<close> give: \<open>None\<close>, booleans,
  integers, strings, lists and dicts. A dict is an association list in insertion order, read
  by its first binding of a key. Floating-point numbers are left out.
\<close>

datatype json =
    JNull
  | JBool bool
  | JInt int
  | JStr ustr
  | JArr "json list"
  | JObj "(ustr \<times> json) list"

datatype error =
    AttributeError
  | TypeError
  | JSONDecodeError
  | FileNotFoundError
  | IsADirectoryError
  | UnicodeEncodeError
  | TransportError

definition of_lit :: "string \<Rightarrow> ustr" where
  "of_lit s = map of_char s"

text \<open>\<open>sep.join(xs)\<close>.\<close>

fun py_join :: "ustr \<Rightarrow> ustr list \<Rightarrow> ustr" where
  "py_join sep [] = []"
| "py_join sep [x] = x"
| "py_join sep (x # y # ys) = x @ sep @ py_join sep (y # ys)"

section \<open>Text normalization and keyword matching\<close>

text \<open>
  The code points for which \<open>str.isspace\<close> holds; the regular expression class
  \<open>\s\<close> on \<open>str\<close> patterns and \<open>str.strip()\<close> use the same class.
\<close>

definition is_space :: "nat \<Rightarrow> bool" where
  "is_space c \<longleftrightarrow>
     (9 \<le> c \<and> c \<le> 13) \<or> (28 \<le> c \<and> c \<le> 32) \<or> c = 133 \<or> c = 160 \<or> c = 5760 \<or>
     (8192 \<le> c \<and> c \<le> 8202) \<or> c = 8232 \<or> c = 8233 \<or> c = 8239 \<or> c = 8287 \<or> c = 12288"

text \<open>\<open>s.replace("\r\n", "\n")\<close>: left to right, without overlap.\<close>

fun crlf_to_lf :: "ustr \<Rightarrow> ustr" where
  "crlf_to_lf (a # b # cs) =
     (if a = 13 \<and> b = 10 then 10 # crlf_to_lf cs else a # crlf_to_lf (b # cs))"
| "crlf_to_lf cs = cs"

text \<open>\<open>s.replace("\r", "\n")\<close>.\<close>

definition cr_to_lf :: "ustr \<Rightarrow> ustr" where
  "cr_to_lf s = map (\<lambda>c. if c = 13 then 10 else c) s"

text \<open>\<open>re.sub(r"\s+", " ", s)\<close>: every maximal run of whitespace becomes one space.\<close>

function collapse_ws :: "ustr \<Rightarrow> ustr" where
  "collapse_ws [] = []"
| "collapse_ws (c # cs) =
     (if is_space c then 32 # collapse_ws (dropWhile is_space cs) else c # collapse_ws cs)"
  by pat_completeness auto
termination
  by (relation "measure length") (auto simp: length_dropWhile_le less_Suc_eq_le)

text \<open>\<open>s.strip()\<close>.\<close>

definition py_strip :: "ustr \<Rightarrow> ustr" where
  "py_strip s = rev (dropWhile is_space (rev (dropWhile is_space s)))"

definition normalize_text :: "ustr \<Rightarrow> ustr" where
  "normalize_text s = py_strip (collapse_ws (cr_to_lf (crlf_to_lf s)))"

text \<open>
  Following the spec's words, for comparison with \<open>normalize_text\<close>: normalization
  collapses every run of whitespace, line breaks included, to a single space and trims the
  ends. The words of a text are its maximal runs of characters that are not whitespace,
  and the whitespace-normalized text is its words joined by single spaces.
\<close>

fun ws_words :: "ustr \<Rightarrow> ustr list" where
  "ws_words [] = []"
| "ws_words (c # cs) =
     (if is_space c then ws_words cs
      else if cs = [] \<or> is_space (hd cs) then [c] # ws_words cs
      else (case ws_words cs of [] \<Rightarrow> [[c]] | w # ws \<Rightarrow> (c # w) # ws))"

definition whitespace_normalized :: "ustr \<Rightarrow> ustr" where
  "whitespace_normalized s = py_join [32] (ws_words s)"

text \<open>\<open>k in subject\<close> on strings: \<open>k\<close> occurs in \<open>subject\<close> as a contiguous block.\<close>

fun str_contains :: "ustr \<Rightarrow> ustr \<Rightarrow> bool" where
  "str_contains [] k = (k = [])"
| "str_contains (c # cs) k = (prefix k (c # cs) \<or> str_contains cs k)"

text \<open>The loop of \<open>match_keywords\<close>, appending the hits in keyword order.\<close>

fun match_keywords :: "ustr \<Rightarrow> ustr list \<Rightarrow> ustr list" where
  "match_keywords subject [] = []"
| "match_keywords subject (k # ks) =
     (if str_contains subject k then k # match_keywords subject ks
      else match_keywords subject ks)"

text \<open>
  \<open>load_keywords\<close> on the lines of the keyword file: strip each line, keep the
  non-empty ones that do not start with \<open>#\<close>, and sort by length, longest first. Python's
  sort is stable also with \<open>reverse=True\<close>, as is \<open>sort_key\<close>.
\<close>

definition load_keywords :: "ustr list \<Rightarrow> ustr list" where
  "load_keywords lines =
     sort_key (\<lambda>k. - int (length k))
       (filter (\<lambda>k. k \<noteq> [] \<and> \<not> prefix [35] k) (map py_strip lines))"

section \<open>String coercion and the identity key\<close>

text \<open>Decimal digits of a natural number, most significant first.\<close>

fun dec_nat :: "nat \<Rightarrow> ustr" where
  "dec_nat n = (if n < 10 then [48 + n] else dec_nat (n div 10) @ [48 + n mod 10])"

declare dec_nat.simps [simp del]

definition dec_int :: "int \<Rightarrow> ustr" where
  "dec_int i = (if i < 0 then 45 # dec_nat (nat (- i)) else dec_nat (nat i))"

text \<open>
  \<open>str(v)\<close>, as the f-string of \<open>build_item_key\<close> and the \<open>str(row[i])\<close> of the
  pipeline apply it. A string is itself, \<open>None\<close> and the booleans are their names, an
  integer is its decimal numeral. For a list or a dict Python gives its \<open>repr\<close>, whose
  quoting and escaping rules are outside this development: it is the parameter \<open>rp\<close>.
\<close>

fun py_str :: "(json \<Rightarrow> ustr) \<Rightarrow> json \<Rightarrow> ustr" where
  "py_str rp JNull = of_lit ''None''"
| "py_str rp (JBool b) = (if b then of_lit ''True'' else of_lit ''False'')"
| "py_str rp (JInt i) = dec_int i"
| "py_str rp (JStr s) = s"
| "py_str rp (JArr xs) = rp (JArr xs)"
| "py_str rp (JObj d) = rp (JObj d)"

text \<open>\<open>d.get(k, dflt)\<close>; \<open>d.get(k)\<close> is \<open>dict_get d k JNull\<close>.\<close>

definition dict_get :: "(ustr \<times> json) list \<Rightarrow> ustr \<Rightarrow> json \<Rightarrow> json" where
  "dict_get d k dflt = (case map_of d k of None \<Rightarrow> dflt | Some v \<Rightarrow> v)"

text \<open>One placeholder \<open>{params.get(f)}\<close> of the f-string.\<close>

definition param_str :: "(json \<Rightarrow> ustr) \<Rightarrow> (ustr \<times> json) list \<Rightarrow> string \<Rightarrow> ustr" where
  "param_str rp params f = py_str rp (dict_get params (of_lit f) JNull)"

definition build_item_key :: "(json \<Rightarrow> ustr) \<Rightarrow> (ustr \<times> json) list \<Rightarrow> ustr" where
  "build_item_key rp params =
     param_str rp params ''enterDate'' @ [124] @
     param_str rp params ''marketKind'' @ [124] @
     param_str rp params ''companyId'' @ [124] @
     param_str rp params ''serialNumber''"

section \<open>Dynamic checks on documents\<close>

text \<open>Truth value of a document, as \<open>or\<close> and \<open>if not\<close> test it.\<close>

fun truthy :: "json \<Rightarrow> bool" where
  "truthy JNull = False"
| "truthy (JBool b) = b"
| "truthy (JInt i) = (i \<noteq> 0)"
| "truthy (JStr s) = (s \<noteq> [])"
| "truthy (JArr xs) = (xs \<noteq> [])"
| "truthy (JObj d) = (d \<noteq> [])"

text \<open>
  Iteration, as \<open>for row in data\<close> and \<open>set(...)\<close> do it: a list gives its elements,
  a string its characters, a dict its keys; \<open>None\<close>, booleans and integers raise.
\<close>

fun py_iter :: "json \<Rightarrow> error + json list" where
  "py_iter (JArr xs) = Inr xs"
| "py_iter (JStr s) = Inr (map (\<lambda>c. JStr [c]) s)"
| "py_iter (JObj d) = Inr (map (\<lambda>kv. JStr (fst kv)) d)"
| "py_iter v = Inl TypeError"

section \<open>Python sets of ledger entries\<close>

text \<open>
  The elements a Python set can hold out of these documents; lists and dicts are
  unhashable.
\<close>

datatype hkey = HNone | HBool bool | HNum int | HStr ustr

fun hkey_of :: "json \<Rightarrow> error + hkey" where
  "hkey_of JNull = Inr HNone"
| "hkey_of (JBool b) = Inr (HBool b)"
| "hkey_of (JInt i) = Inr (HNum i)"
| "hkey_of (JStr s) = Inr (HStr s)"
| "hkey_of v = Inl TypeError"

fun hkey_json :: "hkey \<Rightarrow> json" where
  "hkey_json HNone = JNull"
| "hkey_json (HBool b) = JBool b"
| "hkey_json (HNum i) = JInt i"
| "hkey_json (HStr s) = JStr s"

fun is_str :: "hkey \<Rightarrow> bool" where
  "is_str (HStr s) = True"
| "is_str h = False"

fun str_val :: "hkey \<Rightarrow> ustr" where
  "str_val (HStr s) = s"
| "str_val h = []"

fun is_num :: "hkey \<Rightarrow> bool" where
  "is_num (HBool b) = True"
| "is_num (HNum i) = True"
| "is_num h = False"

fun num_val :: "hkey \<Rightarrow> int" where
  "num_val (HBool b) = (if b then 1 else 0)"
| "num_val (HNum i) = i"
| "num_val h = 0"

text \<open>
  Python's \<open>==\<close> on these values: \<open>True\<close> equals \<open>1\<close> and \<open>False\<close> equals
  \<open>0\<close>. A set holds one of two equal values, the one added first.
\<close>

definition py_eq :: "hkey \<Rightarrow> hkey \<Rightarrow> bool" where
  "py_eq a b \<longleftrightarrow> a = b \<or> (is_num a \<and> is_num b \<and> num_val a = num_val b)"

text \<open>\<open>S.add(h)\<close>.\<close>

definition py_add :: "hkey \<Rightarrow> hkey set \<Rightarrow> hkey set" where
  "py_add h S = (if \<exists>h' \<in> S. py_eq h' h then S else insert h S)"

text \<open>A set as Python holds it: no two of its elements are equal in Python's sense.\<close>

definition py_wf :: "hkey set \<Rightarrow> bool" where
  "py_wf S \<longleftrightarrow> (\<forall>a \<in> S. \<forall>b \<in> S. py_eq a b \<longrightarrow> a = b)"

text \<open>
  \<open>set(xs)\<close> on the elements of an iteration, added from the first on: the first
  unhashable element raises.
\<close>

fun py_set_from :: "hkey set \<Rightarrow> json list \<Rightarrow> error + hkey set" where
  "py_set_from S [] = Inr S"
| "py_set_from S (x # xs) =
     (case hkey_of x of
        Inl err \<Rightarrow> Inl err
      | Inr h \<Rightarrow> py_set_from (py_add h S) xs)"

definition py_set :: "json list \<Rightarrow> error + hkey set" where
  "py_set xs = py_set_from {} xs"

text \<open>The element of a set of numbers and booleans that has a given value.\<close>

definition num_repr :: "hkey set \<Rightarrow> int \<Rightarrow> hkey" where
  "num_repr S v =
     (if v = 1 \<and> HBool True \<in> S then HBool True
      else if v = 0 \<and> HBool False \<in> S then HBool False
      else HNum v)"

text \<open>
  \<open>sorted(S)\<close> on a set: strings are ordered by code points, numbers and booleans by
  value. Strings and numbers cannot be compared with each other, and \<open>None\<close> with
  nothing; a set of one element needs no comparison.
\<close>

definition py_sorted :: "hkey set \<Rightarrow> error + hkey list" where
  "py_sorted S =
     (if \<forall>h \<in> S. is_str h then Inr (map HStr (sorted_list_of_set (str_val ` S)))
      else if \<forall>h \<in> S. is_num h then Inr (map (num_repr S) (sorted_list_of_set (num_val ` S)))
      else if S = {HNone} then Inr [HNone]
      else Inl TypeError)"

section \<open>Files\<close>

text \<open>
  A CSV cell holds a value as the writer renders it, or the text of \<open>json.dumps\<close> of a
  document.
\<close>

datatype cell = Cell json | Dumped json

text \<open>
  What a path holds: the text of a JSON document, kept as the document it is the text of;
  a CSV table (field names and rows); or a file that was opened for writing and not written
  to its end, which is the text of no document. That \<open>json.load\<close> reads back the
  document that \<open>json.dump\<close> wrote is taken from the library. Directories are not part
  of the state, and paths are compared as strings.
\<close>

datatype file_content =
    JsonFile json
  | CsvFile "ustr list" "(ustr \<times> cell) list list"
  | Partial

type_synonym fs = "ustr \<Rightarrow> file_content option"

text \<open>\<open>os.path.dirname\<close> and \<open>os.path.basename\<close> of \<open>posixpath\<close>.\<close>

definition dirname :: "ustr \<Rightarrow> ustr" where
  "dirname p =
     (let head = rev (dropWhile (\<lambda>c. c \<noteq> 47) (rev p))
      in if head \<noteq> [] \<and> \<not> (\<forall>c \<in> set head. c = 47)
         then rev (dropWhile (\<lambda>c. c = 47) (rev head)) else head)"

definition basename :: "ustr \<Rightarrow> ustr" where
  "basename p = rev (takeWhile (\<lambda>c. c \<noteq> 47) (rev p))"

text \<open>
  A path that names a directory by its form: it ends in a slash, or its last component
  is \<open>.\<close> or \<open>..\<close>. Opening it for writing raises \<open>IsADirectoryError\<close>.
\<close>

definition names_directory :: "ustr \<Rightarrow> bool" where
  "names_directory p \<longleftrightarrow> basename p = [] \<or> basename p = [46] \<or> basename p = [46, 46]"

text \<open>
  The files are opened with \<open>encoding="utf-8"\<close> and the dumps are made with
  \<open>ensure_ascii=False\<close>, so a string with a surrogate code point cannot be written:
  the write raises \<open>UnicodeEncodeError\<close>.
\<close>

definition is_surrogate :: "nat \<Rightarrow> bool" where
  "is_surrogate c \<longleftrightarrow> 55296 \<le> c \<and> c \<le> 57343"

definition str_ok :: "ustr \<Rightarrow> bool" where
  "str_ok s \<longleftrightarrow> (\<forall>c \<in> set s. \<not> is_surrogate c)"

fun utf8_ok :: "json \<Rightarrow> bool" where
  "utf8_ok (JStr s) = str_ok s"
| "utf8_ok (JArr xs) = (\<forall>x \<in> set xs. utf8_ok x)"
| "utf8_ok (JObj d) = (\<forall>kv \<in> set d. str_ok (fst kv) \<and> utf8_ok (snd kv))"
| "utf8_ok v = True"

text \<open>
  The three statements of \<open>save_json\<close> as file-system steps: \<open>os.makedirs\<close> on the
  directory name, which raises \<open>FileNotFoundError\<close> on the empty name; \<open>open(path, "w")\<close>,
  which creates or truncates the file at \<open>path\<close>; and \<open>json.dump\<close> into it up to the
  end of the \<open>with\<close> block, which leaves the file partly written when it raises.
\<close>

datatype fs_op = MakeDirs ustr | OpenWrite ustr | DumpJson ustr json

fun apply_op :: "fs_op \<Rightarrow> fs \<Rightarrow> error + fs" where
  "apply_op (MakeDirs d) fs = (if d = [] then Inl FileNotFoundError else Inr fs)"
| "apply_op (OpenWrite p) fs =
     (if names_directory p then Inl IsADirectoryError else Inr (fs(p \<mapsto> Partial)))"
| "apply_op (DumpJson p obj) fs =
     (if utf8_ok obj then Inr (fs(p \<mapsto> JsonFile obj)) else Inl UnicodeEncodeError)"

fun run_ops :: "fs_op list \<Rightarrow> fs \<Rightarrow> error + fs" where
  "run_ops [] fs = Inr fs"
| "run_ops (oper # ops) fs =
     (case apply_op oper fs of Inl err \<Rightarrow> Inl err | Inr fs' \<Rightarrow> run_ops ops fs')"

definition save_json_ops :: "ustr \<Rightarrow> json \<Rightarrow> fs_op list" where
  "save_json_ops path obj = [MakeDirs (dirname path), OpenWrite path, DumpJson path obj]"

definition save_json :: "ustr \<Rightarrow> json \<Rightarrow> fs \<Rightarrow> error + fs" where
  "save_json path obj fs = run_ops (save_json_ops path obj) fs"

text \<open>
  The text of a CSV cell is written as it is: a string as itself, \<open>None\<close> as the
  empty string, any other value as its \<open>str\<close>.
\<close>

fun cell_ok :: "(json \<Rightarrow> ustr) \<Rightarrow> cell \<Rightarrow> bool" where
  "cell_ok rp (Cell JNull) = True"
| "cell_ok rp (Cell v) = str_ok (py_str rp v)"
| "cell_ok rp (Dumped v) = utf8_ok v"

definition save_csv ::
  "(json \<Rightarrow> ustr) \<Rightarrow> ustr \<Rightarrow> (ustr \<times> cell) list list \<Rightarrow> ustr list \<Rightarrow> fs \<Rightarrow> error + fs" where
  "save_csv rp path rows fieldnames fs =
     (if dirname path = [] then Inl FileNotFoundError
      else if names_directory path then Inl IsADirectoryError
      else if \<forall>r \<in> set rows. \<forall>kc \<in> set r. cell_ok rp (snd kc)
      then Inr (fs(path \<mapsto> CsvFile fieldnames rows))
      else Inl UnicodeEncodeError)"

text \<open>
  \<open>load_state\<close>: the default document when nothing exists at the path, else
  \<open>json.load\<close>, which raises on a file that is not the text of a document.
\<close>

definition load_state :: "fs \<Rightarrow> ustr \<Rightarrow> error + json" where
  "load_state fs state_path =
     (case fs state_path of
        None \<Rightarrow> Inr (JObj [(of_lit ''seen_keys'', JArr [])])
      | Some (JsonFile doc) \<Rightarrow> Inr doc
      | Some (CsvFile fieldnames rows) \<Rightarrow> Inl JSONDecodeError
      | Some Partial \<Rightarrow> Inl JSONDecodeError)"

text \<open>\<open>set(state.get("seen_keys", []))\<close>; \<open>.get\<close> exists on dicts only.\<close>

definition seen_keys_of :: "json \<Rightarrow> error + hkey set" where
  "seen_keys_of st =
     (case st of
        JObj d \<Rightarrow>
          (case py_iter (dict_get d (of_lit ''seen_keys'') (JArr [])) of
             Inl err \<Rightarrow> Inl err
           | Inr xs \<Rightarrow> py_set xs)
      | _ \<Rightarrow> Inl AttributeError)"

text \<open>The ledger as the pipeline reads it at its start: \<open>load_state\<close>, then the set.\<close>

definition load_seen :: "fs \<Rightarrow> ustr \<Rightarrow> error + hkey set" where
  "load_seen fs state_path =
     (case load_state fs state_path of Inl err \<Rightarrow> Inl err | Inr st \<Rightarrow> seen_keys_of st)"

text \<open>
  The ledger as the pipeline writes it at its end:
  \<open>save_json(args.state, {"seen_keys": sorted(seen_keys)})\<close>. The argument is evaluated
  first, so a failing sort leaves the file untouched.
\<close>

definition save_seen :: "ustr \<Rightarrow> hkey set \<Rightarrow> fs \<Rightarrow> error + fs" where
  "save_seen state_path seen fs =
     (case py_sorted seen of
        Inl err \<Rightarrow> Inl err
      | Inr ks \<Rightarrow> save_json state_path (JObj [(of_lit ''seen_keys'', JArr (map hkey_json ks))]) fs)"

section \<open>The environment of a run\<close>

datatype url = LIST_API | DETAIL_API

record datetime =
  year :: nat
  month :: nat
  day :: nat
  hour :: nat
  minute :: nat
  second :: nat

text \<open>
  What a run takes from outside: the answers of the upstream service to
  \<open>http_post_json\<close> (an error when the call raises) and the clock reading
  \<open>datetime.now(TAIPEI_TZ)\<close>.
\<close>

record env =
  post :: "url \<Rightarrow> json \<Rightarrow> error + json"
  clock :: datetime

record args =
  out_json :: ustr
  out_csv :: ustr
  state :: ustr

definition http_post_json :: "env \<Rightarrow> url \<Rightarrow> json \<Rightarrow> error + json" where
  "http_post_json e u payload = post e u payload"

definition roc_year :: "datetime \<Rightarrow> int" where
  "roc_year dt = int (year dt) - 1911"

definition zero_pad :: "nat \<Rightarrow> nat \<Rightarrow> ustr" where
  "zero_pad w n = replicate (w - length (dec_nat n)) 48 @ dec_nat n"

text \<open>\<open>strftime("%Y-%m-%d %H:%M:%S")\<close>.\<close>

definition strftime :: "datetime \<Rightarrow> ustr" where
  "strftime dt =
     zero_pad 4 (year dt) @ [45] @ zero_pad 2 (month dt) @ [45] @ zero_pad 2 (day dt) @ [32] @
     zero_pad 2 (hour dt) @ [58] @ zero_pad 2 (minute dt) @ [58] @ zero_pad 2 (second dt)"

text \<open>\<open>list_payload\<close>: the year of the Republic era, the month unpadded, the day on two digits.\<close>

definition list_payload :: "datetime \<Rightarrow> json" where
  "list_payload dt =
     JObj [(of_lit ''year'', JStr (dec_int (roc_year dt))),
           (of_lit ''month'', JStr (dec_nat (month dt))),
           (of_lit ''day'', JStr (zero_pad 2 (day dt)))]"

text \<open>\<open>list_json.get("result", {}).get("data", []) or []\<close>.\<close>

definition listing_data :: "json \<Rightarrow> error + json" where
  "listing_data list_json =
     (case list_json of
        JObj d \<Rightarrow>
          (case dict_get d (of_lit ''result'') (JObj []) of
             JObj r \<Rightarrow>
               (let v = dict_get r (of_lit ''data'') (JArr [])
                in Inr (if truthy v then v else JArr []))
           | _ \<Rightarrow> Inl AttributeError)
      | _ \<Rightarrow> Inl AttributeError)"

section \<open>The pipeline\<close>

record item =
  key :: ustr
  speech_date :: ustr
  speech_time :: ustr
  company_id :: ustr
  company_name :: ustr
  subject :: ustr
  matched_keywords :: "ustr list"
  detail_params :: "(ustr \<times> json) list"
  detail :: json
  fetched_at_tw :: ustr

text \<open>
  The value of \<open>params\<close> after lines 149 and 150: a sixth cell that is not a dict counts
  as the empty dict, and a missing or false \<open>parameters\<close> entry as the empty dict.
\<close>

definition extract_params :: "json \<Rightarrow> json" where
  "extract_params c5 =
     (let detail_meta = (case c5 of JObj d \<Rightarrow> d | _ \<Rightarrow> []);
          v = dict_get detail_meta (of_lit ''parameters'') JNull
      in if truthy v then v else JObj [])"

text \<open>
  The body of the loop for one row: \<open>None\<close> when the row is left by a \<open>continue\<close>,
  an error when the detail call raises, else the item of the row.
\<close>

definition row_item ::
  "(json \<Rightarrow> ustr) \<Rightarrow> env \<Rightarrow> ustr list \<Rightarrow> json \<Rightarrow> (error + item) option" where
  "row_item rp e kws row =
     (case row of
        JArr cells \<Rightarrow>
          if length cells < 6 then None
          else
            (case extract_params (cells ! 5) of
               JObj params \<Rightarrow>
                 (let subj = normalize_text (py_str rp (cells ! 4));
                      hits = match_keywords subj kws
                  in if hits = [] then None
                     else
                       (case http_post_json e DETAIL_API (JObj params) of
                          Inl err \<Rightarrow> Some (Inl err)
                        | Inr d \<Rightarrow>
                            Some (Inr \<lparr>
                              key = build_item_key rp params,
                              speech_date = normalize_text (py_str rp (cells ! 0)),
                              speech_time = normalize_text (py_str rp (cells ! 1)),
                              company_id = normalize_text (py_str rp (cells ! 2)),
                              company_name = normalize_text (py_str rp (cells ! 3)),
                              subject = subj,
                              matched_keywords = hits,
                              detail_params = params,
                              detail = d,
                              fetched_at_tw = strftime (clock e) \<rparr>)))
             | _ \<Rightarrow> None)
      | _ \<Rightarrow> None)"

text \<open>
  The loop over the rows, with \<open>matched_items\<close> and \<open>new_matched_items\<close> as
  accumulators; \<open>seen_keys\<close> is read and not written. An error of a detail call ends it.
\<close>

fun scan_rows ::
  "(json \<Rightarrow> ustr) \<Rightarrow> env \<Rightarrow> ustr list \<Rightarrow> hkey set \<Rightarrow> json list \<Rightarrow> item list \<Rightarrow> item list
     \<Rightarrow> error + (item list \<times> item list)" where
  "scan_rows rp e kws seen_keys [] ms ns = Inr (ms, ns)"
| "scan_rows rp e kws seen_keys (row # rows) ms ns =
     (case row_item rp e kws row of
        None \<Rightarrow> scan_rows rp e kws seen_keys rows ms ns
      | Some (Inl err) \<Rightarrow> Inl err
      | Some (Inr it) \<Rightarrow>
          scan_rows rp e kws seen_keys rows (ms @ [it])
            (if HStr (key it) \<notin> seen_keys then ns @ [it] else ns))"

text \<open>Lines 181 and 182: the keys of all matched items are added to \<open>seen_keys\<close>.\<close>

definition add_keys :: "item list \<Rightarrow> hkey set \<Rightarrow> hkey set" where
  "add_keys ms seen_keys = foldl (\<lambda>S it. py_add (HStr (key it)) S) seen_keys ms"

text \<open>
  The variable \<open>speech_date\<close> after the loop: the date cell of the last row that
  passed the shape test of line 139. It is read only when an item is new, and then such a
  row exists.
\<close>

definition row_has_shape :: "json \<Rightarrow> bool" where
  "row_has_shape row = (case row of JArr cells \<Rightarrow> 6 \<le> length cells | _ \<Rightarrow> False)"

definition last_speech_date :: "(json \<Rightarrow> ustr) \<Rightarrow> json list \<Rightarrow> ustr" where
  "last_speech_date rp data =
     (case rev (filter row_has_shape data) of
        JArr cells # earlier \<Rightarrow> normalize_text (py_str rp (cells ! 0))
      | _ \<Rightarrow> [])"

text \<open>
  The text sent to the notification channels, for a non-empty \<open>new_matched_items\<close>: a
  head line with the number of new items, a line for each of the first ten, and a line with
  the number of the others when there are more.
\<close>

definition digest_line :: "item \<Rightarrow> ustr" where
  "digest_line it =
     [45, 32] @ company_id it @ [32] @ company_name it @ [32] @ speech_time it @ [32] @
     subject it @ [65288] @ py_join [44] (matched_keywords it) @ [65289]"

definition digest :: "ustr \<Rightarrow> item list \<Rightarrow> ustr" where
  "digest last_date new_items =
     py_join [10]
       ([[128227, 32, 77, 79, 80, 83, 32, 26032, 20844, 21578, 21629, 20013, 32] @
           dec_nat (length new_items) @ [32, 31558, 65288] @ last_date @ [65289]] @
        map digest_line (take 10 new_items) @
        (if 10 < length new_items
         then [[46, 46, 46, 32, 21478, 26377, 32] @ dec_nat (length new_items - 10) @ [32, 31558]]
         else []))"

definition item_json :: "item \<Rightarrow> json" where
  "item_json it =
     JObj [(of_lit ''key'', JStr (key it)),
           (of_lit ''speech_date'', JStr (speech_date it)),
           (of_lit ''speech_time'', JStr (speech_time it)),
           (of_lit ''company_id'', JStr (company_id it)),
           (of_lit ''company_name'', JStr (company_name it)),
           (of_lit ''subject'', JStr (subject it)),
           (of_lit ''matched_keywords'', JArr (map JStr (matched_keywords it))),
           (of_lit ''detail_params'', JObj (detail_params it)),
           (of_lit ''detail'', detail it),
           (of_lit ''fetched_at_tw'', JStr (fetched_at_tw it))]"

definition out_document :: "datetime \<Rightarrow> ustr list \<Rightarrow> item list \<Rightarrow> item list \<Rightarrow> json" where
  "out_document dt kws ms ns =
     JObj [(of_lit ''meta'',
            JObj [(of_lit ''run_at_tw'', JStr (strftime dt)),
                  (of_lit ''query'', list_payload dt),
                  (of_lit ''keywords'', JArr (map JStr kws)),
                  (of_lit ''matched_count'', JInt (int (length ms))),
                  (of_lit ''new_matched_count'', JInt (int (length ns)))]),
           (of_lit ''items'', JArr (map item_json ms))]"

definition csv_row :: "item \<Rightarrow> (ustr \<times> cell) list" where
  "csv_row it =
     [(of_lit ''key'', Cell (JStr (key it))),
      (of_lit ''speech_date'', Cell (JStr (speech_date it))),
      (of_lit ''speech_time'', Cell (JStr (speech_time it))),
      (of_lit ''company_id'', Cell (JStr (company_id it))),
      (of_lit ''company_name'', Cell (JStr (company_name it))),
      (of_lit ''subject'', Cell (JStr (subject it))),
      (of_lit ''matched_keywords'', Cell (JStr (py_join [124] (matched_keywords it)))),
      (of_lit ''enterDate'', Cell (dict_get (detail_params it) (of_lit ''enterDate'') JNull)),
      (of_lit ''marketKind'', Cell (dict_get (detail_params it) (of_lit ''marketKind'') JNull)),
      (of_lit ''serialNumber'', Cell (dict_get (detail_params it) (of_lit ''serialNumber'') JNull)),
      (of_lit ''detail_json'', Dumped (detail it)),
      (of_lit ''fetched_at_tw'', Cell (JStr (fetched_at_tw it)))]"

definition csv_fieldnames :: "ustr list" where
  "csv_fieldnames =
     map of_lit [''key'', ''speech_date'', ''speech_time'', ''company_id'', ''company_name'',
       ''subject'', ''matched_keywords'', ''enterDate'', ''marketKind'', ''serialNumber'',
       ''detail_json'', ''fetched_at_tw'']"

text \<open>
  Lines 185 to 224: the JSON output, the CSV output, then the ledger. The first write
  that raises ends the run, so the ledger is written only after both outputs.
\<close>

definition write_outputs ::
  "(json \<Rightarrow> ustr) \<Rightarrow> env \<Rightarrow> args \<Rightarrow> ustr list \<Rightarrow> item list \<Rightarrow> item list \<Rightarrow> hkey set \<Rightarrow> fs
     \<Rightarrow> error + fs" where
  "write_outputs rp e a kws ms ns seen_keys fs =
     (case save_json (out_json a) (out_document (clock e) kws ms ns) fs of
        Inl err \<Rightarrow> Inl err
      | Inr fs1 \<Rightarrow>
          (case save_csv rp (out_csv a) (map csv_row ms) csv_fieldnames fs1 of
             Inl err \<Rightarrow> Inl err
           | Inr fs2 \<Rightarrow> save_seen (state a) seen_keys fs2))"

record run_result =
  matched :: "item list"
  newly_matched :: "item list"
  notification :: "ustr option"

text \<open>
  Lines 131 to 253 of \<open>main\<close>, from the listing's \<open>data\<close> on: load the ledger, scan
  the rows, add the keys of all matched items to the ledger, write the outputs and the
  ledger, and build the notification text. The two notification calls have their
  failures caught and change nothing here.
\<close>

definition run_pipeline ::
  "(json \<Rightarrow> ustr) \<Rightarrow> env \<Rightarrow> args \<Rightarrow> ustr list \<Rightarrow> json \<Rightarrow> fs \<Rightarrow> error + (run_result \<times> fs)" where
  "run_pipeline rp e a kws data fs =
     (case load_seen fs (state a) of
        Inl err \<Rightarrow> Inl err
      | Inr seen_keys \<Rightarrow>
     (case py_iter data of
        Inl err \<Rightarrow> Inl err
      | Inr rows \<Rightarrow>
     (case scan_rows rp e kws seen_keys rows [] [] of
        Inl err \<Rightarrow> Inl err
      | Inr (ms, ns) \<Rightarrow>
     (case write_outputs rp e a kws ms ns (add_keys ms seen_keys) fs of
        Inl err \<Rightarrow> Inl err
      | Inr fs3 \<Rightarrow>
          Inr (\<lparr> matched = ms, newly_matched = ns,
                 notification =
                   (if ns = [] then None
                    else Some (digest (last_speech_date rp rows) ns)) \<rparr>,
               fs3)))))"

text \<open>
  \<open>main\<close> on the lines of the keyword file: the keywords, the listing call for the day
  of the clock, then the pipeline.
\<close>

definition main ::
  "(json \<Rightarrow> ustr) \<Rightarrow> env \<Rightarrow> args \<Rightarrow> ustr list \<Rightarrow> fs \<Rightarrow> error + (run_result \<times> fs)" where
  "main rp e a keyword_lines fs =
     (case http_post_json e LIST_API (list_payload (clock e)) of
        Inl err \<Rightarrow> Inl err
      | Inr list_json \<Rightarrow>
          (case listing_data list_json of
             Inl err \<Rightarrow> Inl err
           | Inr data \<Rightarrow> run_pipeline rp e a (load_keywords keyword_lines) data fs))"

section \<open>Reading the loop row by row\<close>

text \<open>The item that one row contributes to \<open>matched_items\<close>, if any.\<close>

definition row_items :: "(json \<Rightarrow> ustr) \<Rightarrow> env \<Rightarrow> ustr list \<Rightarrow> json \<Rightarrow> item list" where
  "row_items rp e kws row = (case row_item rp e kws row of Some (Inr it) \<Rightarrow> [it] | _ \<Rightarrow> [])"

definition all_items :: "(json \<Rightarrow> ustr) \<Rightarrow> env \<Rightarrow> ustr list \<Rightarrow> json list \<Rightarrow> item list" where
  "all_items rp e kws rows = concat (map (row_items rp e kws) rows)"

text \<open>The error of the first detail call that raises, if any.\<close>

fun first_error :: "(json \<Rightarrow> ustr) \<Rightarrow> env \<Rightarrow> ustr list \<Rightarrow> json list \<Rightarrow> error option" where
  "first_error rp e kws [] = None"
| "first_error rp e kws (row # rows) =
     (case row_item rp e kws row of
        Some (Inl err) \<Rightarrow> Some err
      | _ \<Rightarrow> first_error rp e kws rows)"

text \<open>
  The rows that the two shape tests of the loop turn away, described on the row itself:
  the row is not a list, or it has fewer than six cells, or its sixth cell is a dict whose
  \<open>parameters\<close> entry is a true value that is not a dict.
\<close>

definition row_rejected :: "json \<Rightarrow> bool" where
  "row_rejected row =
     (case row of
        JArr cells \<Rightarrow>
          length cells < 6 \<or>
          (case cells ! 5 of
             JObj d \<Rightarrow>
               (case map_of d (of_lit ''parameters'') of
                  None \<Rightarrow> False
                | Some v \<Rightarrow> truthy v \<and> (case v of JObj p \<Rightarrow> False | _ \<Rightarrow> True))
           | _ \<Rightarrow> False)
      | _ \<Rightarrow> True)"

text \<open>
  The identity key of a row that passes the shape tests and has at least one keyword hit,
  as the loop computes it before the detail call.
\<close>

definition row_key :: "(json \<Rightarrow> ustr) \<Rightarrow> ustr list \<Rightarrow> json \<Rightarrow> ustr option" where
  "row_key rp kws row =
     (case row of
        JArr cells \<Rightarrow>
          if length cells < 6 then None
          else
            (case extract_params (cells ! 5) of
               JObj params \<Rightarrow>
                 if match_keywords (normalize_text (py_str rp (cells ! 4))) kws = [] then None
                 else Some (build_item_key rp params)
             | _ \<Rightarrow> None)
      | _ \<Rightarrow> None)"

text \<open>
  An item without what a run adds from its own detail call and clock: the fields that
  come from the row of the listing and the keywords.
\<close>

definition item_core :: "item \<Rightarrow> item" where
  "item_core it = it\<lparr> detail := JNull, fetched_at_tw := [] \<rparr>"

section \<open>Normalization against its description\<close>

lemma is_space_basic: "is_space 32" "is_space 10" "is_space 13"
  by (simp_all add: is_space_def)

lemma rstrip_Cons:
  "rev (dropWhile is_space (rev (c # cs))) =
     (if \<forall>x \<in> set (c # cs). is_space x then [] else c # rev (dropWhile is_space (rev cs)))"
  by (auto simp: dropWhile_append)

lemma ws_words_not_Nil: "s \<noteq> [] \<Longrightarrow> \<not> is_space (hd s) \<Longrightarrow> ws_words s \<noteq> []"
  by (cases s) (auto split: list.splits)

lemma ws_words_dropWhile: "ws_words (dropWhile is_space s) = ws_words s"
  by (induction s) auto

lemma py_join_Cons_word:
  "ws \<noteq> [] \<Longrightarrow> py_join sep (w # ws) = w @ sep @ py_join sep ws"
  by (cases ws) auto

lemma py_join_grow:
  "py_join sep ((c # w) # ws) = c # py_join sep (w # ws)"
  by (cases ws) auto

lemma collapse_ws_no_lead:
  "s \<noteq> [] \<Longrightarrow> \<not> is_space (hd s) \<Longrightarrow> collapse_ws s = hd s # collapse_ws (tl s)"
  by (cases s) auto

lemma rstrip_collapse:
  "rev (dropWhile is_space (rev (collapse_ws s))) =
     (if s \<noteq> [] \<and> is_space (hd s) \<and> ws_words s \<noteq> []
      then 32 # py_join [32] (ws_words s) else py_join [32] (ws_words s))"
proof (induction s rule: collapse_ws.induct)
  case 1
  show ?case by simp
next
  case (2 c cs)
  show ?case
  proof (cases "is_space c")
    case True
    define t where "t = dropWhile is_space cs"
    have w: "ws_words (c # cs) = ws_words t"
      unfolding t_def ws_words_dropWhile using True by simp
    have cw: "collapse_ws (c # cs) = 32 # collapse_ws t"
      unfolding t_def using True by simp
    have lead: "t = [] \<or> \<not> is_space (hd t)"
      unfolding t_def using hd_dropWhile [of is_space cs] by blast
    then have nc: "\<not> (t \<noteq> [] \<and> is_space (hd t) \<and> ws_words t \<noteq> [])" by blast
    have ih: "rev (dropWhile is_space (rev (collapse_ws t))) = py_join [32] (ws_words t)"
      using 2(1) [OF True, folded t_def] nc by (simp only: if_False)
    show ?thesis
    proof (cases "t = []")
      case tnil: True
      have a: "rev (dropWhile is_space (rev (collapse_ws (c # cs)))) = []"
        unfolding cw tnil by (simp add: is_space_basic)
      have b: "ws_words (c # cs) = []" unfolding w tnil by simp
      show ?thesis unfolding a b by simp
    next
      case tcons: False
      with lead have nl: "\<not> is_space (hd t)" by blast
      from ws_words_not_Nil [OF tcons nl] have wn: "ws_words t \<noteq> []" .
      have "hd t \<in> set (32 # collapse_ws t)"
        unfolding collapse_ws_no_lead [OF tcons nl] by simp
      with nl have "\<not> (\<forall>x \<in> set (32 # collapse_ws t). is_space x)" by blast
      then have "rev (dropWhile is_space (rev (32 # collapse_ws t)))
                   = 32 # rev (dropWhile is_space (rev (collapse_ws t)))"
        by (simp only: rstrip_Cons if_False)
      then have a: "rev (dropWhile is_space (rev (collapse_ws (c # cs))))
                   = 32 # py_join [32] (ws_words (c # cs))"
        unfolding cw ih w .
      have b: "c # cs \<noteq> [] \<and> is_space (hd (c # cs)) \<and> ws_words (c # cs) \<noteq> []"
        unfolding w using True wn by simp
      show ?thesis unfolding if_P [OF b] by (rule a)
    qed
  next
    case False
    have cw: "collapse_ws (c # cs) = c # collapse_ws cs" using False by simp
    from False have "\<not> (\<forall>x \<in> set (c # collapse_ws cs). is_space x)" by simp
    then have r: "rev (dropWhile is_space (rev (c # collapse_ws cs)))
                   = c # rev (dropWhile is_space (rev (collapse_ws cs)))"
      by (simp only: rstrip_Cons if_False)
    have nb: "\<not> (c # cs \<noteq> [] \<and> is_space (hd (c # cs)) \<and> ws_words (c # cs) \<noteq> [])"
      using False by simp
    note ih = 2(2) [OF False]
    have "c # rev (dropWhile is_space (rev (collapse_ws cs))) = py_join [32] (ws_words (c # cs))"
    proof (cases "cs = []")
      case True
      with False show ?thesis by simp
    next
      case cne: False
      show ?thesis
      proof (cases "is_space (hd cs)")
        case sp: True
        have wc: "ws_words (c # cs) = [c] # ws_words cs" using False sp by simp
        show ?thesis
        proof (cases "ws_words cs = []")
          case True
          with ih cne sp wc show ?thesis by simp
        next
          case wne: False
          with ih cne sp have "rev (dropWhile is_space (rev (collapse_ws cs)))
              = 32 # py_join [32] (ws_words cs)" by simp
          then show ?thesis unfolding wc py_join_Cons_word [OF wne] by simp
        qed
      next
        case nsp: False
        from ws_words_not_Nil [OF cne nsp] obtain w ws where wc: "ws_words cs = w # ws"
          by (cases "ws_words cs") auto
        have wcc: "ws_words (c # cs) = (c # w) # ws" using False cne nsp wc by simp
        from ih nsp have "rev (dropWhile is_space (rev (collapse_ws cs))) = py_join [32] (w # ws)"
          unfolding wc by simp
        then show ?thesis unfolding wcc py_join_grow by simp
      qed
    qed
    then show ?thesis unfolding if_not_P [OF nb] cw r .
  qed
qed

lemma py_strip_collapse: "py_strip (collapse_ws s) = py_join [32] (ws_words s)"
proof (cases "s \<noteq> [] \<and> is_space (hd s)")
  case True
  then obtain c cs where s: "s = c # cs" and sp: "is_space c" by (cases s) auto
  define t where "t = dropWhile is_space cs"
  have cw: "collapse_ws s = 32 # collapse_ws t"
    using s sp by (simp add: t_def)
  have lead: "t = [] \<or> \<not> is_space (hd t)"
    unfolding t_def using hd_dropWhile [of is_space cs] by blast
  have "dropWhile is_space (collapse_ws t) = collapse_ws t"
  proof (cases "t = []")
    case True
    then show ?thesis by simp
  next
    case False
    with lead have "\<not> is_space (hd t)" by blast
    from collapse_ws_no_lead [OF False this] this show ?thesis by simp
  qed
  then have "py_strip (collapse_ws s) = rev (dropWhile is_space (rev (collapse_ws t)))"
    unfolding cw by (simp add: py_strip_def is_space_basic)
  also have "\<dots> = py_join [32] (ws_words t)"
    using lead by (auto simp: rstrip_collapse)
  also have "ws_words t = ws_words s"
    using s sp by (simp add: ws_words_dropWhile t_def)
  finally show ?thesis .
next
  case False
  have "dropWhile is_space (collapse_ws s) = collapse_ws s"
  proof (cases "s = []")
    case True
    then show ?thesis by simp
  next
    case sne: False
    with False have "\<not> is_space (hd s)" by blast
    from collapse_ws_no_lead [OF sne this] this show ?thesis by simp
  qed
  then have "py_strip (collapse_ws s) = rev (dropWhile is_space (rev (collapse_ws s)))"
    by (simp add: py_strip_def)
  also have "\<dots> = py_join [32] (ws_words s)"
    using False by (auto simp: rstrip_collapse)
  finally show ?thesis .
qed

lemma cr_to_lf_Cons: "cr_to_lf (c # cs) = (if c = 13 then 10 else c) # cr_to_lf cs"
  by (simp add: cr_to_lf_def)

lemma cr_to_lf_Nil: "cr_to_lf cs = [] \<longleftrightarrow> cs = []"
  by (simp add: cr_to_lf_def)

lemma cr_to_lf_hd: "cs \<noteq> [] \<Longrightarrow> is_space (hd (cr_to_lf cs)) = is_space (hd cs)"
  by (cases cs) (auto simp: cr_to_lf_def is_space_basic)

lemma ws_words_cr_to_lf: "ws_words (cr_to_lf s) = ws_words s"
proof (induction s)
  case Nil
  show ?case by (simp add: cr_to_lf_def)
next
  case (Cons c cs)
  show ?case
  proof (cases "c = 13")
    case True
    have "ws_words (cr_to_lf (c # cs)) = ws_words (10 # cr_to_lf cs)"
      using True by (simp add: cr_to_lf_Cons)
    also have "\<dots> = ws_words cs" using Cons.IH by (simp add: is_space_basic)
    also have "\<dots> = ws_words (c # cs)" using True by (simp add: is_space_basic)
    finally show ?thesis .
  next
    case False
    have "ws_words (cr_to_lf (c # cs)) = ws_words (c # cr_to_lf cs)"
      using False by (simp add: cr_to_lf_Cons)
    also have "\<dots> = ws_words (c # cs)"
    proof (cases "cs = []")
      case True
      then show ?thesis by (simp add: cr_to_lf_def)
    next
      case cne: False
      with Cons.IH cr_to_lf_hd [OF cne] show ?thesis by (simp add: cr_to_lf_Nil)
    qed
    finally show ?thesis .
  qed
qed

lemma crlf_to_lf_Nil: "crlf_to_lf s = [] \<longleftrightarrow> s = []"
  by (induction s rule: crlf_to_lf.induct) auto

lemma crlf_to_lf_hd: "s \<noteq> [] \<Longrightarrow> is_space (hd (crlf_to_lf s)) = is_space (hd s)"
  by (induction s rule: crlf_to_lf.induct) (auto simp: is_space_basic)

lemma ws_words_crlf_to_lf: "ws_words (crlf_to_lf s) = ws_words s"
proof (induction s rule: crlf_to_lf.induct)
  case (1 a b cs)
  show ?case
  proof (cases "a = 13 \<and> b = 10")
    case True
    with 1 show ?thesis by (simp add: is_space_basic)
  next
    case False
    with 1 have ih: "ws_words (crlf_to_lf (b # cs)) = ws_words (b # cs)" by simp
    have ne: "crlf_to_lf (b # cs) \<noteq> []" by (simp add: crlf_to_lf_Nil)
    have hd: "is_space (hd (crlf_to_lf (b # cs))) = is_space b"
      using crlf_to_lf_hd [of "b # cs"] by simp
    have "crlf_to_lf (a # b # cs) = a # crlf_to_lf (b # cs)" using False by auto
    then have "ws_words (crlf_to_lf (a # b # cs)) = ws_words (a # crlf_to_lf (b # cs))" by simp
    also have "\<dots> = ws_words (a # b # cs)"
      using ih ne hd by (simp del: crlf_to_lf.simps)
    finally show ?thesis .
  qed
qed simp_all

lemma normalize_text_words: "normalize_text s = whitespace_normalized s"
  by (simp add: normalize_text_def whitespace_normalized_def py_strip_collapse
      ws_words_cr_to_lf ws_words_crlf_to_lf)

lemma ws_words_concat: "concat (ws_words s) = filter (\<lambda>c. \<not> is_space c) s"
proof (induction s)
  case Nil
  show ?case by simp
next
  case (Cons c cs)
  show ?case
  proof (cases "ws_words cs")
    case Nil
    with Cons show ?thesis by simp
  next
    case (Cons w ws)
    with Cons.IH show ?thesis by simp
  qed
qed

lemma ws_words_are_words:
  "\<forall>w \<in> set (ws_words s). w \<noteq> [] \<and> (\<forall>c \<in> set w. \<not> is_space c)"
proof (induction s)
  case Nil
  show ?case by simp
next
  case (Cons c cs)
  show ?case
  proof (cases "ws_words cs")
    case Nil
    with Cons show ?thesis by simp
  next
    case (Cons w ws)
    with Cons.IH show ?thesis by simp
  qed
qed

section \<open>Properties of the matcher\<close>

lemma str_contains_iff: "str_contains s k \<longleftrightarrow> (\<exists>p q. s = p @ k @ q)"
proof (induction s)
  case Nil
  show ?case by auto
next
  case (Cons c cs)
  show ?case
  proof
    assume "str_contains (c # cs) k"
    then consider "prefix k (c # cs)" | "str_contains cs k" by auto
    then show "\<exists>p q. c # cs = p @ k @ q"
    proof cases
      case 1
      then obtain q where "c # cs = k @ q" by (auto simp: prefix_def)
      then have "c # cs = [] @ k @ q" by simp
      then show ?thesis by blast
    next
      case 2
      with Cons.IH obtain p q where "cs = p @ k @ q" by blast
      then have "c # cs = (c # p) @ k @ q" by simp
      then show ?thesis by blast
    qed
  next
    assume "\<exists>p q. c # cs = p @ k @ q"
    then obtain p q where pq: "c # cs = p @ k @ q" by blast
    show "str_contains (c # cs) k"
    proof (cases p)
      case Nil
      with pq have "prefix k (c # cs)" by (simp add: prefix_def)
      then show ?thesis by simp
    next
      case (Cons a p')
      with pq have "cs = p' @ k @ q" by simp
      with Cons.IH have "str_contains cs k" by blast
      then show ?thesis by simp
    qed
  qed
qed

lemma match_keywords_filter:
  "match_keywords subj ks = filter (str_contains subj) ks"
  by (induction ks) auto

text \<open>
  C4. \<open>normalize_text\<close> gives the whitespace-normalized subject: the words of \<open>S\<close>
  joined by single spaces. For every keyword list \<open>K\<close> and subject \<open>S\<close>, the hits of
  \<open>match_keywords\<close> on it are a subsequence of \<open>K\<close> in keyword order; every hit
  occurs in the whitespace-normalized subject as a substring; every keyword of \<open>K\<close>
  that occurs in it is a hit; and an empty keyword list gives no hit.
\<close>

theorem match_keywords_sound_complete:
  "normalize_text S = whitespace_normalized S \<and>
   subseq (match_keywords (normalize_text S) K) K \<and>
   (\<forall>k \<in> set (match_keywords (normalize_text S) K).
        \<exists>p q. whitespace_normalized S = p @ k @ q) \<and>
   (\<forall>k \<in> set K. (\<exists>p q. whitespace_normalized S = p @ k @ q) \<longrightarrow>
        k \<in> set (match_keywords (normalize_text S) K)) \<and>
   match_keywords (normalize_text S) [] = []"
  by (simp add: match_keywords_filter str_contains_iff normalize_text_words)

theorem match_keywords_sound_complete_witness:
  "match_keywords
     (normalize_text [20844, 21496, 32, 13, 10, 36914, 34892, 12288, 24235, 34255, 32929, 36681, 35731, 12288])
     [[20844, 21496, 32, 36914, 34892], [24235, 34255, 32929], [28187, 36039]]
   = [[20844, 21496, 32, 36914, 34892], [24235, 34255, 32929]] \<and>
   match_keywords
     [20844, 21496, 32, 13, 10, 36914, 34892, 12288, 24235, 34255, 32929, 36681, 35731, 12288]
     [[20844, 21496, 32, 36914, 34892], [24235, 34255, 32929], [28187, 36039]]
   = [[24235, 34255, 32929]] \<and>
   (\<exists>p q. whitespace_normalized
       [20844, 21496, 32, 13, 10, 36914, 34892, 12288, 24235, 34255, 32929, 36681, 35731, 12288]
      = p @ [20844, 21496, 32, 36914, 34892] @ q)"
proof -
  let ?S = "[20844, 21496, 32, 13, 10, 36914, 34892, 12288, 24235, 34255, 32929, 36681, 35731, 12288] :: ustr"
  let ?K = "[[20844, 21496, 32, 36914, 34892], [24235, 34255, 32929], [28187, 36039]] :: ustr list"
  have n: "normalize_text ?S = [20844, 21496, 32, 36914, 34892, 32, 24235, 34255, 32929, 36681, 35731]"
    by (simp add: normalize_text_def py_strip_def cr_to_lf_def is_space_def)
  have h: "match_keywords (normalize_text ?S) ?K = [[20844, 21496, 32, 36914, 34892], [24235, 34255, 32929]]"
    unfolding n by simp
  have r: "match_keywords ?S ?K = [[24235, 34255, 32929]]"
    by simp
  have "\<forall>k \<in> set (match_keywords (normalize_text ?S) ?K). \<exists>p q. whitespace_normalized ?S = p @ k @ q"
    using match_keywords_sound_complete [of ?S ?K] by blast
  then have "\<exists>p q. whitespace_normalized ?S = p @ [20844, 21496, 32, 36914, 34892] @ q"
    unfolding h by simp
  with h r show ?thesis by blast
qed

section \<open>Properties of the identity key\<close>

text \<open>
  C2 as the code has it. The key is a function of the four sub-fields: equal values give
  equal keys, and so do values with equal string forms. When the string forms of three of
  the sub-fields agree, the keys are equal exactly when the string forms of the fourth
  agree, so one sub-field whose string form differs gives a different key.
\<close>

theorem build_item_key_fields:
  "(dict_get p (of_lit ''enterDate'') JNull = dict_get q (of_lit ''enterDate'') JNull \<and>
    dict_get p (of_lit ''marketKind'') JNull = dict_get q (of_lit ''marketKind'') JNull \<and>
    dict_get p (of_lit ''companyId'') JNull = dict_get q (of_lit ''companyId'') JNull \<and>
    dict_get p (of_lit ''serialNumber'') JNull = dict_get q (of_lit ''serialNumber'') JNull
      \<longrightarrow> build_item_key rp p = build_item_key rp q) \<and>
   (param_str rp p ''enterDate'' = param_str rp q ''enterDate'' \<and>
    param_str rp p ''marketKind'' = param_str rp q ''marketKind'' \<and>
    param_str rp p ''companyId'' = param_str rp q ''companyId'' \<and>
    param_str rp p ''serialNumber'' = param_str rp q ''serialNumber''
      \<longrightarrow> build_item_key rp p = build_item_key rp q) \<and>
   (param_str rp p ''marketKind'' = param_str rp q ''marketKind'' \<and>
    param_str rp p ''companyId'' = param_str rp q ''companyId'' \<and>
    param_str rp p ''serialNumber'' = param_str rp q ''serialNumber''
      \<longrightarrow> (build_item_key rp p = build_item_key rp q \<longleftrightarrow>
            param_str rp p ''enterDate'' = param_str rp q ''enterDate'')) \<and>
   (param_str rp p ''enterDate'' = param_str rp q ''enterDate'' \<and>
    param_str rp p ''companyId'' = param_str rp q ''companyId'' \<and>
    param_str rp p ''serialNumber'' = param_str rp q ''serialNumber''
      \<longrightarrow> (build_item_key rp p = build_item_key rp q \<longleftrightarrow>
            param_str rp p ''marketKind'' = param_str rp q ''marketKind'')) \<and>
   (param_str rp p ''enterDate'' = param_str rp q ''enterDate'' \<and>
    param_str rp p ''marketKind'' = param_str rp q ''marketKind'' \<and>
    param_str rp p ''serialNumber'' = param_str rp q ''serialNumber''
      \<longrightarrow> (build_item_key rp p = build_item_key rp q \<longleftrightarrow>
            param_str rp p ''companyId'' = param_str rp q ''companyId'')) \<and>
   (param_str rp p ''enterDate'' = param_str rp q ''enterDate'' \<and>
    param_str rp p ''marketKind'' = param_str rp q ''marketKind'' \<and>
    param_str rp p ''companyId'' = param_str rp q ''companyId''
      \<longrightarrow> (build_item_key rp p = build_item_key rp q \<longleftrightarrow>
            param_str rp p ''serialNumber'' = param_str rp q ''serialNumber''))"
  by (simp add: build_item_key_def param_str_def)

text \<open>
  C2 as stated fails. Two mappings that differ on \<open>serialNumber\<close> alone, the number
  \<open>1\<close> against the string \<open>1\<close>, have the same key. No list or dict occurs in them,
  so the rendering of containers plays no role.
\<close>

theorem build_item_key_collision:
  "dict_get [(of_lit ''enterDate'', JStr (of_lit ''1150105'')), (of_lit ''marketKind'', JStr (of_lit ''sii'')),
             (of_lit ''companyId'', JStr (of_lit ''3004'')), (of_lit ''serialNumber'', JInt 1)]
            (of_lit ''serialNumber'') JNull
   \<noteq> dict_get [(of_lit ''enterDate'', JStr (of_lit ''1150105'')), (of_lit ''marketKind'', JStr (of_lit ''sii'')),
             (of_lit ''companyId'', JStr (of_lit ''3004'')), (of_lit ''serialNumber'', JStr (of_lit ''1''))]
            (of_lit ''serialNumber'') JNull \<and>
   build_item_key (\<lambda>v. [])
     [(of_lit ''enterDate'', JStr (of_lit ''1150105'')), (of_lit ''marketKind'', JStr (of_lit ''sii'')),
      (of_lit ''companyId'', JStr (of_lit ''3004'')), (of_lit ''serialNumber'', JInt 1)]
   = build_item_key (\<lambda>v. [])
     [(of_lit ''enterDate'', JStr (of_lit ''1150105'')), (of_lit ''marketKind'', JStr (of_lit ''sii'')),
      (of_lit ''companyId'', JStr (of_lit ''3004'')), (of_lit ''serialNumber'', JStr (of_lit ''1''))]"
  by (simp add: build_item_key_def param_str_def dict_get_def of_lit_def dec_int_def dec_nat.simps)

theorem build_item_key_fields_witness:
  "build_item_key (\<lambda>v. [])
     [(of_lit ''enterDate'', JStr (of_lit ''1150105'')), (of_lit ''marketKind'', JStr (of_lit ''sii'')),
      (of_lit ''companyId'', JStr (of_lit ''3004'')), (of_lit ''serialNumber'', JInt 1)]
   = build_item_key (\<lambda>v. [])
     [(of_lit ''serialNumber'', JInt 1), (of_lit ''companyId'', JStr (of_lit ''3004'')),
      (of_lit ''marketKind'', JStr (of_lit ''sii'')), (of_lit ''enterDate'', JStr (of_lit ''1150105'')),
      (of_lit ''apiName'', JNull)] \<and>
   build_item_key (\<lambda>v. [])
     [(of_lit ''enterDate'', JStr (of_lit ''a|b'')), (of_lit ''marketKind'', JStr (of_lit ''sii'')),
      (of_lit ''companyId'', JStr (of_lit ''3004'')), (of_lit ''serialNumber'', JInt 1)]
   \<noteq> build_item_key (\<lambda>v. [])
     [(of_lit ''enterDate'', JStr (of_lit ''a|b'')), (of_lit ''marketKind'', JStr (of_lit ''sii'')),
      (of_lit ''companyId'', JStr (of_lit ''3004'')), (of_lit ''serialNumber'', JInt 2)]"
proof -
  let ?p = "[(of_lit ''enterDate'', JStr (of_lit ''1150105'')), (of_lit ''marketKind'', JStr (of_lit ''sii'')),
      (of_lit ''companyId'', JStr (of_lit ''3004'')), (of_lit ''serialNumber'', JInt 1)]"
  let ?q = "[(of_lit ''serialNumber'', JInt 1), (of_lit ''companyId'', JStr (of_lit ''3004'')),
      (of_lit ''marketKind'', JStr (of_lit ''sii'')), (of_lit ''enterDate'', JStr (of_lit ''1150105'')),
      (of_lit ''apiName'', JNull)]"
  let ?r = "[(of_lit ''enterDate'', JStr (of_lit ''a|b'')), (of_lit ''marketKind'', JStr (of_lit ''sii'')),
      (of_lit ''companyId'', JStr (of_lit ''3004'')), (of_lit ''serialNumber'', JInt 1)]"
  let ?s = "[(of_lit ''enterDate'', JStr (of_lit ''a|b'')), (of_lit ''marketKind'', JStr (of_lit ''sii'')),
      (of_lit ''companyId'', JStr (of_lit ''3004'')), (of_lit ''serialNumber'', JInt 2)]"
  have a: "build_item_key (\<lambda>v. []) ?p = build_item_key (\<lambda>v. []) ?q"
    using build_item_key_fields [of ?p ?q "\<lambda>v. []"]
    by (simp add: dict_get_def of_lit_def)
  have b: "build_item_key (\<lambda>v. []) ?r \<noteq> build_item_key (\<lambda>v. []) ?s"
    using build_item_key_fields [of ?r ?s "\<lambda>v. []"]
    by (simp add: param_str_def dict_get_def of_lit_def dec_int_def dec_nat.simps)
  from a b show ?thesis by blast
qed

text \<open>
  A \<open>|\<close> inside a value joins like the delimiter: two mappings that differ on two
  sub-fields can have one key, against the comment of line 106 that the key is unique.
\<close>

lemma build_item_key_delimiter:
  "build_item_key (\<lambda>v. [])
     [(of_lit ''enterDate'', JStr (of_lit ''a|b'')), (of_lit ''marketKind'', JStr (of_lit ''c''))]
   = build_item_key (\<lambda>v. [])
     [(of_lit ''enterDate'', JStr (of_lit ''a'')), (of_lit ''marketKind'', JStr (of_lit ''b|c''))]"
  by (simp add: build_item_key_def param_str_def dict_get_def of_lit_def)

section \<open>Properties of Python sets\<close>

lemma py_eq_str: "py_eq h (HStr k) \<longleftrightarrow> h = HStr k"
  by (cases h) (auto simp: py_eq_def)

lemma py_add_str: "py_add (HStr k) S = insert (HStr k) S"
  by (auto simp: py_add_def py_eq_str)

lemma py_add_cases: "py_add h S = S \<or> py_add h S = insert h S"
  by (simp add: py_add_def)

lemma py_add_finite: "finite S \<Longrightarrow> finite (py_add h S)"
  using py_add_cases [of h S] by auto

lemma py_eq_sym: "py_eq a b \<Longrightarrow> py_eq b a"
  by (auto simp: py_eq_def)

lemma py_add_wf:
  assumes "py_wf S"
  shows "py_wf (py_add h S)"
proof (cases "\<exists>h' \<in> S. py_eq h' h")
  case True
  then have "py_add h S = S" by (simp add: py_add_def)
  with assms show ?thesis by simp
next
  case False
  then have a: "py_add h S = insert h S" by (simp add: py_add_def)
  from False have n: "\<And>x. x \<in> S \<Longrightarrow> \<not> py_eq x h" by blast
  then have m: "\<And>x. x \<in> S \<Longrightarrow> \<not> py_eq h x" using py_eq_sym by blast
  show ?thesis
    unfolding a py_wf_def
  proof (intro ballI impI)
    fix x y assume "x \<in> insert h S" "y \<in> insert h S" "py_eq x y"
    with n m assms show "x = y" by (auto simp: py_wf_def)
  qed
qed

lemma py_add_member_wf:
  assumes "py_wf (insert h S)"
  shows "py_add h S = insert h S"
proof (cases "\<exists>h' \<in> S. py_eq h' h")
  case True
  then obtain h' where "h' \<in> S" "py_eq h' h" by blast
  with assms have "h' = h" by (auto simp: py_wf_def)
  with \<open>h' \<in> S\<close> have "insert h S = S" by auto
  with True show ?thesis by (simp add: py_add_def)
next
  case False
  then show ?thesis by (simp add: py_add_def)
qed

lemma py_wf_subset: "py_wf T \<Longrightarrow> S \<subseteq> T \<Longrightarrow> py_wf S"
  by (auto simp: py_wf_def)

lemma py_set_from_wf_finite:
  "py_set_from S xs = Inr T \<Longrightarrow> py_wf S \<Longrightarrow> finite S \<Longrightarrow> py_wf T \<and> finite T"
proof (induction xs arbitrary: S)
  case Nil
  then show ?case by simp
next
  case (Cons x xs)
  from Cons.prems(1) obtain h where h: "hkey_of x = Inr h"
    and r: "py_set_from (py_add h S) xs = Inr T"
    by (auto split: sum.splits)
  from Cons.IH [OF r py_add_wf [OF Cons.prems(2)] py_add_finite [OF Cons.prems(3)]]
  show ?case .
qed

lemma hkey_of_hkey_json: "hkey_of (hkey_json h) = Inr h"
  by (cases h) simp_all

lemma py_set_from_hkey_json:
  "py_wf (S \<union> set ks) \<Longrightarrow> py_set_from S (map hkey_json ks) = Inr (S \<union> set ks)"
proof (induction ks arbitrary: S)
  case Nil
  show ?case by simp
next
  case (Cons h ks)
  have "py_wf (insert h S)"
    by (rule py_wf_subset [OF Cons.prems]) auto
  then have a: "py_add h S = insert h S" by (rule py_add_member_wf)
  have "py_wf (insert h S \<union> set ks)"
    by (rule py_wf_subset [OF Cons.prems]) auto
  from Cons.IH [OF this] show ?case
    by (simp add: hkey_of_hkey_json a)
qed

lemma py_set_hkey_json: "py_wf (set ks) \<Longrightarrow> py_set (map hkey_json ks) = Inr (set ks)"
  using py_set_from_hkey_json [of "{}" ks] by (simp add: py_set_def)

lemma py_wf_empty: "py_wf {}"
  by (simp add: py_wf_def)

lemma py_wf_insert_str: "py_wf S \<Longrightarrow> py_wf (insert (HStr k) S)"
  using py_add_wf [of S "HStr k"] by (simp add: py_add_str)

lemma py_wf_strs: "py_wf (HStr ` X)"
  by (auto simp: py_wf_def py_eq_def)

lemma num_repr_wf:
  assumes "py_wf S" and "h \<in> S" and "is_num h"
  shows "num_repr S (num_val h) = h"
proof (cases h)
  case (HBool b)
  with assms(2) show ?thesis by (cases b) (simp_all add: num_repr_def)
next
  case (HNum i)
  have "\<not> (i = 1 \<and> HBool True \<in> S)"
  proof
    assume "i = 1 \<and> HBool True \<in> S"
    moreover have "py_eq (HNum 1) (HBool True)" by (simp add: py_eq_def)
    ultimately have "HNum 1 = HBool True" using assms(1,2) HNum by (auto simp: py_wf_def)
    then show False by simp
  qed
  moreover have "\<not> (i = 0 \<and> HBool False \<in> S)"
  proof
    assume "i = 0 \<and> HBool False \<in> S"
    moreover have "py_eq (HNum 0) (HBool False)" by (simp add: py_eq_def)
    ultimately have "HNum 0 = HBool False" using assms(1,2) HNum by (auto simp: py_wf_def)
    then show False by simp
  qed
  ultimately show ?thesis using HNum by (auto simp: num_repr_def)
next
  case HNone
  with assms(3) show ?thesis by simp
next
  case (HStr s)
  with assms(3) show ?thesis by simp
qed

lemma is_str_val: "is_str h \<Longrightarrow> HStr (str_val h) = h"
  by (cases h) simp_all

lemma py_sorted_set:
  assumes "py_wf S" and "finite S" and "py_sorted S = Inr ks"
  shows "set ks = S"
proof -
  consider (strs) "\<forall>h \<in> S. is_str h"
    | (nums) "\<not> (\<forall>h \<in> S. is_str h)" "\<forall>h \<in> S. is_num h"
    | (none) "\<not> (\<forall>h \<in> S. is_str h)" "\<not> (\<forall>h \<in> S. is_num h)" "S = {HNone}"
    | (bad) "\<not> (\<forall>h \<in> S. is_str h)" "\<not> (\<forall>h \<in> S. is_num h)" "S \<noteq> {HNone}"
    by blast
  then show ?thesis
  proof cases
    case strs
    with assms(3) have ks: "ks = map HStr (sorted_list_of_set (str_val ` S))"
      by (simp add: py_sorted_def)
    have "HStr ` str_val ` S = S"
      using strs by (force simp: image_iff is_str_val)
    with assms(2) show ?thesis by (simp add: ks)
  next
    case nums
    with assms(3) have ks: "ks = map (num_repr S) (sorted_list_of_set (num_val ` S))"
      by (simp add: py_sorted_def)
    have "num_repr S ` num_val ` S = S"
      using nums(2) num_repr_wf [OF assms(1)] by (force simp: image_iff)
    with assms(2) show ?thesis by (simp add: ks)
  next
    case none
    with assms(3) show ?thesis by (auto simp: py_sorted_def)
  next
    case bad
    with assms(3) show ?thesis by (simp add: py_sorted_def)
  qed
qed

lemma py_sorted_strs:
  "py_sorted (HStr ` X) = Inr (map HStr (sorted_list_of_set X))"
proof -
  have "str_val ` HStr ` X = X" by (simp add: image_image)
  then show ?thesis by (simp add: py_sorted_def)
qed

lemma add_keys_eq: "add_keys ms S = S \<union> HStr ` key ` set ms"
proof (induction ms arbitrary: S)
  case Nil
  show ?case by (simp add: add_keys_def)
next
  case (Cons m ms)
  have "add_keys (m # ms) S = add_keys ms (insert (HStr (key m)) S)"
    by (simp add: add_keys_def py_add_str)
  then show ?case by (simp add: Cons.IH)
qed

section \<open>Properties of the ledger file\<close>

lemma save_json_eq:
  "save_json path obj fs =
     (if dirname path = [] then Inl FileNotFoundError
      else if names_directory path then Inl IsADirectoryError
      else if utf8_ok obj then Inr (fs(path \<mapsto> JsonFile obj))
      else Inl UnicodeEncodeError)"
  by (simp add: save_json_def save_json_ops_def)

lemma seen_keys_of_ledger:
  "py_wf (set ks) \<Longrightarrow>
     seen_keys_of (JObj [(of_lit ''seen_keys'', JArr (map hkey_json ks))]) = Inr (set ks)"
  by (simp add: seen_keys_of_def dict_get_def py_set_hkey_json)

lemma load_seen_wf_finite:
  assumes "load_seen fs p = Inr S"
  shows "py_wf S \<and> finite S"
proof -
  from assms obtain xs where "py_set_from {} xs = Inr S"
    by (auto simp: load_seen_def seen_keys_of_def py_set_def split: sum.splits json.splits)
  from py_set_from_wf_finite [OF this py_wf_empty] show ?thesis by simp
qed

lemma load_seen_save_seen:
  assumes "py_wf S" and "finite S" and "save_seen path S fs = Inr fs'"
  shows "load_seen fs' path = Inr S"
proof -
  from assms(3) obtain ks where ks: "py_sorted S = Inr ks"
    and sv: "save_json path (JObj [(of_lit ''seen_keys'', JArr (map hkey_json ks))]) fs = Inr fs'"
    by (auto simp: save_seen_def split: sum.splits)
  from py_sorted_set [OF assms(1,2) ks] have s: "set ks = S" .
  from sv have "fs' = fs(path \<mapsto> JsonFile (JObj [(of_lit ''seen_keys'', JArr (map hkey_json ks))]))"
    by (auto simp: save_json_eq split: if_splits)
  moreover have "py_wf (set ks)" using s assms(1) by simp
  ultimately have "load_seen fs' path = Inr (set ks)"
    by (simp add: load_seen_def load_state_def seen_keys_of_ledger)
  with s show ?thesis by simp
qed

lemma utf8_ok_ledger:
  "utf8_ok (JObj [(of_lit ''seen_keys'', JArr (map JStr ks))]) \<longleftrightarrow> (\<forall>k \<in> set ks. str_ok k)"
  by (simp add: of_lit_def str_ok_def is_surrogate_def)

text \<open>
  C6 as the code has it. For every set of key strings that hold no surrogate code point,
  and every path that has a directory part and does not name a directory, saving the set
  succeeds, the file then holds the keys as a sorted sequence without repetition, and
  loading from the path gives exactly the set.
\<close>

theorem ledger_round_trip:
  assumes "dirname path \<noteq> []" and "\<not> names_directory path" and "\<forall>k \<in> set xs. str_ok k"
  shows "\<exists>fs' ks. save_seen path (HStr ` set xs) fs = Inr fs' \<and>
           fs' path = Some (JsonFile (JObj [(of_lit ''seen_keys'', JArr (map JStr ks))])) \<and>
           sorted ks \<and> distinct ks \<and> set ks = set xs \<and>
           load_seen fs' path = Inr (HStr ` set xs)"
proof -
  let ?ks = "sorted_list_of_set (set xs)"
  let ?doc = "JObj [(of_lit ''seen_keys'', JArr (map JStr ?ks))]"
  let ?fs = "fs(path \<mapsto> JsonFile ?doc)"
  have m: "hkey_json \<circ> HStr = JStr" by (rule ext) simp
  have ok: "utf8_ok ?doc" unfolding utf8_ok_ledger using assms(3) by simp
  have sj: "save_json path ?doc fs = Inr ?fs"
    using assms(1,2) ok by (simp only: save_json_eq if_False if_True)
  have sv: "save_seen path (HStr ` set xs) fs = Inr ?fs"
    using sj by (simp add: save_seen_def py_sorted_strs m)
  have "finite (HStr ` set xs)" by simp
  from load_seen_save_seen [OF py_wf_strs this sv]
  have ld: "load_seen ?fs path = Inr (HStr ` set xs)" .
  have "?fs path = Some (JsonFile ?doc)" by simp
  moreover have "sorted ?ks \<and> distinct ?ks \<and> set ?ks = set xs" by simp
  ultimately show ?thesis using sv ld by blast
qed

lemma dirname_demo: "dirname (of_lit ''public/state.json'') = of_lit ''public''"
  by (simp add: dirname_def of_lit_def)

lemma state_path_ok:
  "dirname (of_lit ''public/state.json'') \<noteq> [] \<and> \<not> names_directory (of_lit ''public/state.json'')"
  by (simp add: dirname_demo names_directory_def basename_def) (simp add: of_lit_def)

theorem ledger_round_trip_witness:
  "dirname (of_lit ''public/state.json'') \<noteq> [] \<and>
   \<not> names_directory (of_lit ''public/state.json'') \<and>
   str_ok (of_lit ''1150105|sii|3004|1'') \<and> str_ok (of_lit ''1150105|otc|6488|2'') \<and>
   (\<exists>fs' ks. save_seen (of_lit ''public/state.json'')
        (HStr ` set [of_lit ''1150105|sii|3004|1'', of_lit ''1150105|otc|6488|2'', of_lit ''1150105|sii|3004|1''])
        Map.empty = Inr fs' \<and>
      fs' (of_lit ''public/state.json'')
        = Some (JsonFile (JObj [(of_lit ''seen_keys'', JArr (map JStr ks))])) \<and>
      sorted ks \<and> distinct ks \<and>
      set ks = set [of_lit ''1150105|sii|3004|1'', of_lit ''1150105|otc|6488|2'', of_lit ''1150105|sii|3004|1''] \<and>
      load_seen fs' (of_lit ''public/state.json'')
        = Inr (HStr ` set [of_lit ''1150105|sii|3004|1'', of_lit ''1150105|otc|6488|2'', of_lit ''1150105|sii|3004|1'']))"
proof -
  let ?xs = "[of_lit ''1150105|sii|3004|1'', of_lit ''1150105|otc|6488|2'', of_lit ''1150105|sii|3004|1'']"
  have d: "dirname (of_lit ''public/state.json'') \<noteq> []" using state_path_ok by blast
  have n: "\<not> names_directory (of_lit ''public/state.json'')" using state_path_ok by blast
  have k: "\<forall>k \<in> set ?xs. str_ok k"
    by (simp add: str_ok_def is_surrogate_def of_lit_def)
  from k have k': "str_ok (of_lit ''1150105|sii|3004|1'') \<and> str_ok (of_lit ''1150105|otc|6488|2'')"
    by simp
  from d n k' ledger_round_trip [OF d n k, of Map.empty] show ?thesis by blast
qed

text \<open>
  C6 as stated fails. At a bare file name \<open>os.makedirs\<close> raises on the empty directory
  name and nothing is saved, so that loading gives the empty set; at a path that ends in
  a slash the \<open>open\<close> raises; and a key with a surrogate code point cannot be written.
\<close>

theorem ledger_round_trip_counterexample:
  "save_seen (of_lit ''state.json'') (HStr ` {of_lit ''1150105|sii|3004|1''}) Map.empty
     = Inl FileNotFoundError \<and>
   load_seen Map.empty (of_lit ''state.json'') = Inr {} \<and>
   save_seen (of_lit ''public/'') (HStr ` {of_lit ''1150105|sii|3004|1''}) Map.empty
     = Inl IsADirectoryError \<and>
   save_seen (of_lit ''public/state.json'') (HStr ` {[55296]}) Map.empty
     = Inl UnicodeEncodeError"
proof -
  have s: "\<And>k. py_sorted {HStr k} = Inr [HStr k]"
    using py_sorted_strs [of "{k}" for k] by simp
  have a: "dirname (of_lit ''state.json'') = []"
    by (simp add: dirname_def of_lit_def)
  have b: "dirname (of_lit ''public/'') \<noteq> [] \<and> names_directory (of_lit ''public/'')"
    by (simp add: dirname_def names_directory_def basename_def of_lit_def)
  have c: "\<not> utf8_ok (JObj [(of_lit ''seen_keys'', JArr [JStr [55296]])])"
    by (simp add: str_ok_def is_surrogate_def)
  have 1: "save_seen (of_lit ''state.json'') (HStr ` {of_lit ''1150105|sii|3004|1''}) Map.empty
     = Inl FileNotFoundError"
    by (simp add: save_seen_def s save_json_eq a)
  have 2: "load_seen Map.empty (of_lit ''state.json'') = Inr {}"
    by (simp add: load_seen_def load_state_def seen_keys_of_def dict_get_def py_set_def)
  have 3: "save_seen (of_lit ''public/'') (HStr ` {of_lit ''1150105|sii|3004|1''}) Map.empty
     = Inl IsADirectoryError"
    using b by (simp add: save_seen_def s save_json_eq)
  have 4: "save_seen (of_lit ''public/state.json'') (HStr ` {[55296]}) Map.empty
     = Inl UnicodeEncodeError"
    using state_path_ok c by (simp add: save_seen_def s save_json_eq)
  from 1 2 3 4 show ?thesis by blast
qed

text \<open>
  C9. When nothing exists at the path, \<open>load_state\<close> returns the default document and
  the set of seen keys is empty; no error is raised.
\<close>

theorem load_state_absent:
  "fs path = None \<Longrightarrow>
     load_state fs path = Inr (JObj [(of_lit ''seen_keys'', JArr [])]) \<and>
     load_seen fs path = Inr {}"
  by (simp add: load_state_def load_seen_def seen_keys_of_def dict_get_def py_set_def)

theorem load_state_absent_witness:
  "(Map.empty :: fs) (of_lit ''public/state.json'') = None \<and>
   load_state Map.empty (of_lit ''public/state.json'') = Inr (JObj [(of_lit ''seen_keys'', JArr [])]) \<and>
   load_seen Map.empty (of_lit ''public/state.json'') = Inr {}"
  using load_state_absent [of Map.empty "of_lit ''public/state.json''"] by simp

text \<open>
  C5 as the code has it. \<open>save_json\<close> writes the destination itself. For a path that has
  a directory part and does not name a directory: the save of a document that can be
  encoded runs to its end and leaves the document at the path, from which
  \<open>load_state\<close> reads it; cut off after the \<open>open\<close> and before the dump is complete,
  it leaves at the very same path a file that is the text of no document, on which
  \<open>load_state\<close> raises.
\<close>

theorem save_json_writes_in_place:
  "dirname path \<noteq> [] \<Longrightarrow> \<not> names_directory path \<Longrightarrow>
     (utf8_ok obj \<longrightarrow> save_json path obj fs = Inr (fs(path \<mapsto> JsonFile obj))) \<and>
     load_state (fs(path \<mapsto> JsonFile obj)) path = Inr obj \<and>
     run_ops (take 2 (save_json_ops path obj)) fs = Inr (fs(path \<mapsto> Partial)) \<and>
     load_state (fs(path \<mapsto> Partial)) path = Inl JSONDecodeError"
  by (simp add: save_json_eq save_json_ops_def load_state_def)

theorem save_json_writes_in_place_witness:
  "dirname (of_lit ''public/state.json'') \<noteq> [] \<and>
   \<not> names_directory (of_lit ''public/state.json'') \<and>
   utf8_ok (JObj [(of_lit ''seen_keys'', JArr [])]) \<and>
   save_json (of_lit ''public/state.json'') (JObj [(of_lit ''seen_keys'', JArr [])]) Map.empty
     = Inr (Map.empty(of_lit ''public/state.json'' \<mapsto> JsonFile (JObj [(of_lit ''seen_keys'', JArr [])]))) \<and>
   run_ops (take 2 (save_json_ops (of_lit ''public/state.json'') (JObj [(of_lit ''seen_keys'', JArr [])])))
     Map.empty = Inr (Map.empty(of_lit ''public/state.json'' \<mapsto> Partial))"
proof -
  have d: "dirname (of_lit ''public/state.json'') \<noteq> []" using state_path_ok by blast
  have n: "\<not> names_directory (of_lit ''public/state.json'')" using state_path_ok by blast
  have u: "utf8_ok (JObj [(of_lit ''seen_keys'', JArr [])])"
    by (simp add: str_ok_def is_surrogate_def of_lit_def)
  from d n u save_json_writes_in_place [OF d n] show ?thesis by blast
qed

text \<open>
  C5 as stated fails: a valid ledger is at the path, and the steps of \<open>save_json\<close> up to
  the \<open>open\<close> leave a file there on which \<open>load_state\<close> raises.
\<close>

theorem save_json_crash_counterexample:
  "load_seen (Map.empty(of_lit ''public/state.json'' \<mapsto>
       JsonFile (JObj [(of_lit ''seen_keys'', JArr [JStr (of_lit ''1150105|sii|3004|1'')])])))
     (of_lit ''public/state.json'') = Inr {HStr (of_lit ''1150105|sii|3004|1'')} \<and>
   run_ops (take 2 (save_json_ops (of_lit ''public/state.json'')
       (JObj [(of_lit ''seen_keys'',
               JArr [JStr (of_lit ''1150105|otc|6488|2''), JStr (of_lit ''1150105|sii|3004|1'')])])))
     (Map.empty(of_lit ''public/state.json'' \<mapsto>
       JsonFile (JObj [(of_lit ''seen_keys'', JArr [JStr (of_lit ''1150105|sii|3004|1'')])])))
     = Inr (Map.empty(of_lit ''public/state.json'' \<mapsto> Partial)) \<and>
   load_state (Map.empty(of_lit ''public/state.json'' \<mapsto> Partial)) (of_lit ''public/state.json'')
     = Inl JSONDecodeError"
proof -
  have a: "load_seen (Map.empty(of_lit ''public/state.json'' \<mapsto>
       JsonFile (JObj [(of_lit ''seen_keys'', JArr [JStr (of_lit ''1150105|sii|3004|1'')])])))
     (of_lit ''public/state.json'') = Inr {HStr (of_lit ''1150105|sii|3004|1'')}"
    by (simp add: load_seen_def load_state_def seen_keys_of_def dict_get_def py_set_def py_add_def)
  have b: "run_ops (take 2 (save_json_ops (of_lit ''public/state.json'')
       (JObj [(of_lit ''seen_keys'',
               JArr [JStr (of_lit ''1150105|otc|6488|2''), JStr (of_lit ''1150105|sii|3004|1'')])])))
     (Map.empty(of_lit ''public/state.json'' \<mapsto>
       JsonFile (JObj [(of_lit ''seen_keys'', JArr [JStr (of_lit ''1150105|sii|3004|1'')])])))
     = Inr (Map.empty(of_lit ''public/state.json'' \<mapsto> Partial))"
    using state_path_ok by (simp add: save_json_ops_def)
  have c: "load_state (Map.empty(of_lit ''public/state.json'' \<mapsto> Partial)) (of_lit ''public/state.json'')
     = Inl JSONDecodeError"
    by (simp add: load_state_def)
  from a b c show ?thesis by blast
qed

end
